theory Spec2Isabelle
  imports Main "HOL-Library.Word" "HOL-Library.Sublist"
begin

section \<open>The data model of upptest.h\<close>

text \<open>
  What a hook or an assertion can throw. The handlers of \<open>Test::execute\<close> tell three kinds of
  thrown object apart, so the model has three constructors:
  \<^item> \<open>assert_fail_exception\<close> with its members \<open>_msg\<close>, \<open>_file_name\<close>, \<open>_line_num\<close>;
  \<^item> any other object of a class derived from \<open>std::exception\<close>, represented by what its
    \<open>what()\<close> returns: \<open>None\<close> is a null pointer, \<open>Some D\<close> a C string \<open>D\<close>;
  \<^item> an object of any type not derived from \<open>std::exception\<close> (\<open>throw 42;\<close>).
\<close>

datatype thrown =
    assert_fail_exception (what_str: string) (file_name: string) (line_num: int)
  | std_exception (what: "string option")
  | other_exception

datatype Status = not_run | pass | fail

text \<open>
  A virtual hook (\<open>pre_test\<close>, \<open>execute_test\<close>, \<open>post_test\<close>) is user code: it reads and
  changes the state of the program (the test object and everything else it can reach, the
  steady clock included), and either returns (\<open>None\<close>) or throws (\<open>Some ex\<close>).
  Hooks are taken to terminate.
\<close>

type_synonym 's hook = "'s \<Rightarrow> thrown option \<times> 's"

record 's Test =
  pre_test :: "'s hook"
  execute_test :: "'s hook"
  post_test :: "'s hook"

text \<open>
  \<open>Info\<close>. The factory \<open>f\<close> is a \<open>std::function\<close>, user code as the hooks are: it reads and
  changes the program state and either returns the new test object or throws.
\<close>

record 's Info =
  f :: "'s \<Rightarrow> (thrown + 's Test) \<times> 's"
  name :: string
  category :: string
  "file" :: string
  line :: int

text \<open>
  \<open>Result\<close>. The member \<open>info\<close> is a pointer to the descriptor (\<open>None\<close> is \<open>nullptr\<close>);
  \<open>duration\<close> counts milliseconds.
\<close>

record 'i Result =
  info :: "'i option"
  status :: Status
  duration :: int
  err_message :: string
  err_file :: string
  err_line :: int

definition Result_init :: "'i Result" where
  "Result_init =
     \<lparr>info = None, status = not_run, duration = 0,
      err_message = [], err_file = [], err_line = 0\<rparr>"

definition Result_exception :: "'i Result \<Rightarrow> string option \<Rightarrow> 'i Result" where
  "Result_exception res ex_what =
     (let res1 = res\<lparr>status := fail\<rparr>;
          res2 = res1\<lparr>err_message := ''unhandled exception''\<rparr>
      in case ex_what of
           Some d \<Rightarrow> res2\<lparr>err_message := (err_message res2 @ '': '') @ d\<rparr>
         | None \<Rightarrow> res2)"

definition Result_fail :: "'i Result \<Rightarrow> string \<Rightarrow> string \<Rightarrow> int \<Rightarrow> 'i Result" where
  "Result_fail res msg file_nm line_no =
     res\<lparr>status := fail, err_message := msg, err_file := file_nm, err_line := line_no\<rparr>"

section \<open>The assertion layer\<close>

text \<open>
  A fail handler either throws (\<open>Some ex\<close>) or returns (\<open>None\<close>); \<open>Basic_Assert\<close> takes it
  as a template parameter, here the first argument of every check.
\<close>

type_synonym Fail_Handler = "string \<Rightarrow> string \<Rightarrow> int \<Rightarrow> thrown option"

definition Default_Fail_Handler_handle :: Fail_Handler where
  "Default_Fail_Handler_handle message file_nm line_no =
     Some (assert_fail_exception message file_nm line_no)"

definition Basic_Assert_fail :: "Fail_Handler \<Rightarrow> string \<Rightarrow> string \<Rightarrow> int \<Rightarrow> thrown option" where
  "Basic_Assert_fail handle message file_nm line_no = handle message file_nm line_no"

definition expr :: "Fail_Handler \<Rightarrow> bool \<Rightarrow> string \<Rightarrow> int \<Rightarrow> thrown option" where
  "expr handle ex file_nm line_no =
     (if ex then None
      else Basic_Assert_fail handle ''Assert expression failed'' file_nm line_no)"

definition is_true :: "Fail_Handler \<Rightarrow> bool \<Rightarrow> string \<Rightarrow> int \<Rightarrow> thrown option" where
  "is_true handle condition file_nm line_no =
     (if condition then None
      else Basic_Assert_fail handle ''Expected [true] saw [false]'' file_nm line_no)"

definition is_false :: "Fail_Handler \<Rightarrow> bool \<Rightarrow> string \<Rightarrow> int \<Rightarrow> thrown option" where
  "is_false handle condition file_nm line_no =
     (if \<not> condition then None
      else Basic_Assert_fail handle ''Expected [false] saw [true]'' file_nm line_no)"

text \<open>A pointer \<open>const T*\<close> is either \<open>nullptr\<close> or points to an object.\<close>

datatype 'a ptr = nullptr | Ptr 'a

definition is_null :: "Fail_Handler \<Rightarrow> 'a ptr \<Rightarrow> string \<Rightarrow> int \<Rightarrow> thrown option" where
  "is_null handle p file_nm line_no =
     (if p = nullptr then None
      else Basic_Assert_fail handle ''Expected [nullptr]'' file_nm line_no)"

definition is_not_null :: "Fail_Handler \<Rightarrow> 'a ptr \<Rightarrow> string \<Rightarrow> int \<Rightarrow> thrown option" where
  "is_not_null handle p file_nm line_no =
     (if p \<noteq> nullptr then None
      else Basic_Assert_fail handle ''Expected not [nullptr]'' file_nm line_no)"

section \<open>The lifecycle of a test case\<close>

text \<open>
  \<open>std::chrono::steady_clock::now()\<close> reads the clock of the program state; the reading is
  a count of ticks. The model takes the clock as a parameter \<open>now\<close> of every function that
  reads it, and a tick to be a nanosecond (\<open>steady_clock::period\<close> is \<open>std::nano\<close> in
  libstdc++, libc++ and the Microsoft library). \<open>duration_cast\<close> to milliseconds divides by
  \<open>1000000\<close> and truncates toward zero.
\<close>

definition duration_cast_milliseconds :: "int \<Rightarrow> int" where
  "duration_cast_milliseconds d =
     (if 0 \<le> d then d div 1000000 else - ((- d) div 1000000))"

text \<open>
  The statements of the \<open>try\<close> block up to the assignment: \<open>pre_test(); execute_test();\<close>.
  A hook that throws ends the block, so \<open>execute_test\<close> runs only after \<open>pre_test\<close>
  has returned.
\<close>

definition try_block :: "'s Test \<Rightarrow> 's hook" where
  "try_block t s =
     (case pre_test t s of
        (Some ex, s1) \<Rightarrow> (Some ex, s1)
      | (None, s1) \<Rightarrow> execute_test t s1)"

text \<open>
  The two handlers, in the order of the source. The first catches \<open>assert_fail_exception\<close>,
  the second every other \<open>std::exception\<close>; an object of any other type is caught by
  neither and leaves \<open>execute\<close> (\<open>Inl\<close>).
\<close>

fun handlers :: "thrown \<Rightarrow> 'i Result \<Rightarrow> thrown + 'i Result" where
  "handlers (assert_fail_exception msg file_nm line_no) res =
     Inr (Result_fail res msg file_nm line_no)"
| "handlers (std_exception ex_what) res = Inr (Result_exception res ex_what)"
| "handlers other_exception res = Inl other_exception"

text \<open>
  \<open>Test::execute\<close>. The caller's \<open>Result\<close> is passed by reference, so the model returns
  it in every case, together with the program state: when an exception leaves \<open>execute\<close>
  (\<open>Inl\<close>) the caller still holds the \<open>Result\<close> as it was mutated up to there.
  \<open>post_test\<close> is called after the \<open>try\<close> statement, outside any handler.
\<close>

definition execute ::
  "('s \<Rightarrow> int) \<Rightarrow> 's Test \<Rightarrow> 'i Result \<Rightarrow> 's \<Rightarrow> (thrown + Status) \<times> 'i Result \<times> 's" where
  "execute now t res s =
     (let test_start_time = now s in
      case (case try_block t s of
              (None, s1) \<Rightarrow> (Inr (res\<lparr>status := pass\<rparr>), s1)
            | (Some ex, s1) \<Rightarrow> (handlers ex res, s1)) of
        (Inl ex, s1) \<Rightarrow> (Inl ex, res, s1)
      | (Inr res1, s1) \<Rightarrow>
          (case post_test t s1 of
             (Some ex, s2) \<Rightarrow> (Inl ex, res1, s2)
           | (None, s2) \<Rightarrow>
               (let test_end_time = now s2;
                    test_duration = duration_cast_milliseconds (test_end_time - test_start_time);
                    res2 = res1\<lparr>duration := test_duration\<rparr>
                in (Inr (status res2), res2, s2))))"

section \<open>The runner\<close>

text \<open>
  \<open>Runner::run(const Info* const ti, Result& out_res)\<close>. When the factory throws, the
  exception leaves the function before \<open>out_res.info\<close> is assigned. Destroying the test
  object at the end is taken to have no effect.
\<close>

definition run_one ::
  "('s \<Rightarrow> int) \<Rightarrow> 's Info \<Rightarrow> 's Info Result \<Rightarrow> 's
     \<Rightarrow> (thrown + Status) \<times> 's Info Result \<times> 's" where
  "run_one now ti out_res s =
     (case f ti s of
        (Inl ex, s1) \<Rightarrow> (Inl ex, out_res, s1)
      | (Inr tst, s1) \<Rightarrow>
          (let out_res1 = out_res\<lparr>info := Some ti\<rparr>
           in execute now tst out_res1 s1))"

text \<open>
  The filter and the observer are callables of the caller: user code that reads and
  changes the program state \<open>'s\<close> and the caller's own state \<open>'o\<close> (what the captures of
  the two callables refer to), and either returns or throws. They are taken to terminate.
\<close>

type_synonym ('s, 'o) Binary_Predicate = "'s Info \<Rightarrow> 's \<Rightarrow> 'o \<Rightarrow> (thrown + bool) \<times> 's \<times> 'o"

type_synonym ('s, 'o) Execution_Observer =
  "'s Info Result \<Rightarrow> 's \<Rightarrow> 'o \<Rightarrow> thrown option \<times> 's \<times> 'o"

text \<open>
  \<open>Runner::run(itr_begin, itr_end, filter, observer)\<close>. The range is the list of the
  descriptors it yields. The counters are \<open>size_t\<close>, here 64 bits wide, and wrap. The loop
  has no handler: an exception thrown by \<open>filter(ti)\<close>, leaving \<open>run(ti, res)\<close> or thrown by
  \<open>observer(res)\<close> leaves the loop and the function.
\<close>

type_synonym size_t = "64 word"

fun run_loop ::
  "('s \<Rightarrow> int) \<Rightarrow> ('s, 'o) Binary_Predicate \<Rightarrow> ('s, 'o) Execution_Observer \<Rightarrow> 's Info list
     \<Rightarrow> size_t \<Rightarrow> size_t \<Rightarrow> 's \<Rightarrow> 'o \<Rightarrow> (thrown + Status) \<times> 's \<times> 'o" where
  "run_loop now flt observer [] pass_count test_count s ob =
     (Inr (if pass_count = test_count then pass else fail), s, ob)"
| "run_loop now flt observer (ti # itr) pass_count test_count s ob =
     (case flt ti s ob of
        (Inl ex, s1, ob1) \<Rightarrow> (Inl ex, s1, ob1)
      | (Inr accepted, s1, ob1) \<Rightarrow>
          (if accepted then
             (case run_one now ti Result_init s1 of
                (Inl ex, res, s2) \<Rightarrow> (Inl ex, s2, ob1)
              | (Inr r, res, s2) \<Rightarrow>
                  (let pass_count1 = (if r = pass then pass_count + 1 else pass_count);
                       test_count1 = test_count + 1
                   in case observer res s2 ob1 of
                        (Some ex, s3, ob2) \<Rightarrow> (Inl ex, s3, ob2)
                      | (None, s3, ob2) \<Rightarrow>
                          run_loop now flt observer itr pass_count1 test_count1 s3 ob2))
           else run_loop now flt observer itr pass_count test_count s1 ob1))"

definition run ::
  "('s \<Rightarrow> int) \<Rightarrow> ('s, 'o) Binary_Predicate \<Rightarrow> ('s, 'o) Execution_Observer \<Rightarrow> 's Info list
     \<Rightarrow> 's \<Rightarrow> 'o \<Rightarrow> (thrown + Status) \<times> 's \<times> 'o" where
  "run now flt observer tests s ob = run_loop now flt observer tests 0 0 s ob"

text \<open>
  A filter that is a predicate on the descriptor: it returns, and changes nothing. An
  observer that returns and changes the caller's state only.
\<close>

definition returning_filter :: "('s Info \<Rightarrow> bool) \<Rightarrow> ('s, 'o) Binary_Predicate" where
  "returning_filter p = (\<lambda>ti s ob. (Inr (p ti), s, ob))"

definition returning_observer :: "('s Info Result \<Rightarrow> 'o \<Rightarrow> 'o) \<Rightarrow> ('s, 'o) Execution_Observer" where
  "returning_observer g = (\<lambda>res s ob. (None, s, g res ob))"

text \<open>
  The overloads without a filter pass \<open>[](Info_Type) { return true; }\<close>, the predicate that
  accepts every descriptor.
\<close>

definition run_all ::
  "('s \<Rightarrow> int) \<Rightarrow> ('s, 'o) Execution_Observer \<Rightarrow> 's Info list
     \<Rightarrow> 's \<Rightarrow> 'o \<Rightarrow> (thrown + Status) \<times> 's \<times> 'o" where
  "run_all now observer tests s ob = run now (returning_filter (\<lambda>ti. True)) observer tests s ob"

section \<open>The executions of a list of descriptors\<close>

text \<open>
  The \<open>Result\<close>s of executing the descriptors of a list one after another, each from a
  fresh \<open>Result\<close> as the loop of \<open>Runner::run\<close> does, up to the first execution that lets
  an exception out. It is what a run hands to an observer that returns and leaves the
  program state alone.
\<close>

fun deliveries :: "('s \<Rightarrow> int) \<Rightarrow> 's Info list \<Rightarrow> 's \<Rightarrow> 's Info Result list" where
  "deliveries now [] s = []"
| "deliveries now (ti # tis) s =
     (case run_one now ti Result_init s of
        (Inl ex, res, s1) \<Rightarrow> []
      | (Inr r, res, s1) \<Rightarrow> res # deliveries now tis s1)"

section \<open>Instrumented and concrete tests\<close>

text \<open>
  A fixture that records the calls of its hooks: the test \<open>t\<close> with a log of hook names
  beside the state, each hook appending its own name when it is called.
\<close>

datatype hook_name = Pre_test | Execute_test | Post_test

definition traced_hook :: "hook_name \<Rightarrow> 's hook \<Rightarrow> ('s \<times> hook_name list) hook" where
  "traced_hook h hk = (\<lambda>(s, calls). case hk s of (r, s1) \<Rightarrow> (r, (s1, calls @ [h])))"

definition traced :: "'s Test \<Rightarrow> ('s \<times> hook_name list) Test" where
  "traced t =
     \<lparr>pre_test = traced_hook Pre_test (pre_test t),
      execute_test = traced_hook Execute_test (execute_test t),
      post_test = traced_hook Post_test (post_test t)\<rparr>"

text \<open>
  A filter and an observer that record their calls: beside the caller's state there is a
  list of the descriptors the filter accepted and a list of the \<open>Result\<close>s the observer
  was called with, each call appending to its list whether it then returns or throws.
\<close>

definition logging_filter ::
  "('s, 'o) Binary_Predicate \<Rightarrow> ('s, 'o \<times> 's Info list \<times> 's Info Result list) Binary_Predicate" where
  "logging_filter flt ti s =
     (\<lambda>(ob, acc, seen). case flt ti s ob of
        (r, s1, ob1) \<Rightarrow> (r, s1, (ob1, (if r = Inr True then acc @ [ti] else acc), seen)))"

definition logging_observer ::
  "('s, 'o) Execution_Observer
     \<Rightarrow> ('s, 'o \<times> 's Info list \<times> 's Info Result list) Execution_Observer" where
  "logging_observer observer res s =
     (\<lambda>(ob, acc, seen). case observer res s ob of
        (r, s1, ob1) \<Rightarrow> (r, s1, (ob1, acc, seen @ [res])))"

text \<open>
  Concrete tests. Their program state is the reading of the clock in ticks; \<open>ticking d r\<close>
  is a hook that takes \<open>d\<close> ticks and then returns or throws as \<open>r\<close> says.
\<close>

definition ticking :: "int \<Rightarrow> thrown option \<Rightarrow> int hook" where
  "ticking d r = (\<lambda>s. (r, s + d))"

definition clock :: "int \<Rightarrow> int" where
  "clock s = s"

definition passing_test :: "int Test" where
  "passing_test =
     \<lparr>pre_test = ticking 1000 None,
      execute_test = ticking 2500000 None,
      post_test = ticking 1000 None\<rparr>"

text \<open>The body is \<open>UASSERT_TRUE(false)\<close> at line 12 of \<open>t.cpp\<close>.\<close>

definition asserting_test :: "int Test" where
  "asserting_test =
     \<lparr>pre_test = ticking 1000 None,
      execute_test = ticking 1000 (is_true Default_Fail_Handler_handle False ''t.cpp'' 12),
      post_test = ticking 1000 None\<rparr>"

text \<open>The body is \<open>utest::assert::fail("")\<close>.\<close>

definition empty_fail_test :: "int Test" where
  "empty_fail_test =
     \<lparr>pre_test = ticking 1000 None,
      execute_test = ticking 1000 (Basic_Assert_fail Default_Fail_Handler_handle [] [] 0),
      post_test = ticking 1000 None\<rparr>"

text \<open>The body throws a \<open>std::exception\<close> whose \<open>what()\<close> is as given.\<close>

definition throwing_test :: "string option \<Rightarrow> int Test" where
  "throwing_test w =
     \<lparr>pre_test = ticking 1000 None,
      execute_test = ticking 1000 (Some (std_exception w)),
      post_test = ticking 1000 None\<rparr>"

text \<open>The body is \<open>throw 42;\<close>.\<close>

definition alien_test :: "int Test" where
  "alien_test =
     \<lparr>pre_test = ticking 1000 None,
      execute_test = ticking 1000 (Some other_exception),
      post_test = ticking 1000 None\<rparr>"

text \<open>Setup and body return; the teardown throws \<open>std::runtime_error("boom")\<close>.\<close>

definition teardown_throwing_test :: "int Test" where
  "teardown_throwing_test =
     \<lparr>pre_test = ticking 1000 None,
      execute_test = ticking 1000 None,
      post_test = ticking 1000 (Some (std_exception (Some ''boom'')))\<rparr>"

definition descriptor :: "'s Test \<Rightarrow> string \<Rightarrow> string \<Rightarrow> 's Info" where
  "descriptor t nm cat =
     \<lparr>f = (\<lambda>s. (Inr t, s)), name = nm, category = cat, file = ''t.cpp'', line = 1\<rparr>"

text \<open>An observer that appends every \<open>Result\<close> it is called with to a list.\<close>

definition recording :: "'r \<Rightarrow> 'r list \<Rightarrow> 'r list" where
  "recording res seen = seen @ [res]"

text \<open>An observer that appends the \<open>Result\<close> and then throws \<open>std::runtime_error("observer")\<close>.\<close>

definition throwing_observer :: "('s, 's Info Result list) Execution_Observer" where
  "throwing_observer res s seen = (Some (std_exception (Some ''observer'')), s, seen @ [res])"

text \<open>A \<open>Result\<close> left over from a failed execution.\<close>

definition stale_result :: "'i Result" where
  "stale_result = Result_fail Result_init ''Expected [true] saw [false]'' ''t.cpp'' 12"

text \<open>
  A range of five descriptors, two of them in the category \<open>fast\<close>, and the filter that
  accepts this category.
\<close>

definition suite :: "int Info list" where
  "suite =
     [descriptor passing_test ''t1'' ''fast'',
      descriptor asserting_test ''t2'' ''slow'',
      descriptor passing_test ''t3'' ''fast'',
      descriptor alien_test ''t4'' ''slow'',
      descriptor (throwing_test None) ''t5'' ''slow'']"

definition fast :: "'s Info \<Rightarrow> bool" where
  "fast ti = (category ti = ''fast'')"

section \<open>Auxiliary facts\<close>

lemma handlers_Inl: "(handlers ex res = Inl e) = (ex = other_exception \<and> e = other_exception)"
  by (cases ex) auto

lemma handlers_Inr_status: "handlers ex res = Inr res1 \<Longrightarrow> status res1 = fail"
  by (cases ex) (auto simp: Result_fail_def Result_exception_def Let_def split: option.splits)

lemma duration_cast_milliseconds_nonneg: "0 \<le> d \<Longrightarrow> 0 \<le> duration_cast_milliseconds d"
  by (simp add: duration_cast_milliseconds_def)

lemma traced_try_block:
  "try_block (traced t) (s, calls) =
     (fst (try_block t s),
      (snd (try_block t s),
       calls @ (case fst (pre_test t s) of Some ex \<Rightarrow> [Pre_test] | None \<Rightarrow> [Pre_test, Execute_test])))"
  by (simp add: try_block_def traced_def traced_hook_def split: prod.splits option.splits)

lemma traced_post_test:
  "post_test (traced t) (s, calls) = (fst (post_test t s), (snd (post_test t s), calls @ [Post_test]))"
  by (simp add: traced_def traced_hook_def split: prod.splits)

subsection \<open>The loop of the runner with a returning filter and observer\<close>

lemma execute_Inr:
  "execute now t res s = (Inr r, res', s') \<Longrightarrow> r = status res' \<and> info res' = info res"
  by (cases "try_block t s"; cases "fst (try_block t s)")
    (auto simp: execute_def Let_def Result_fail_def Result_exception_def
      elim!: handlers.elims split: prod.splits option.splits sum.splits)

lemma run_one_Inr:
  "run_one now ti Result_init s = (Inr r, res, s1) \<Longrightarrow> r = status res \<and> info res = Some ti"
  by (auto simp: run_one_def Let_def dest!: execute_Inr split: prod.splits sum.splits)

lemma run_loop_returning:
  "run_loop now (returning_filter p) (returning_observer g) (ti # itr) pc tc s ob =
     (if p ti then
        (case run_one now ti Result_init s of
           (Inl ex, res, s1) \<Rightarrow> (Inl ex, s1, ob)
         | (Inr r, res, s1) \<Rightarrow>
             run_loop now (returning_filter p) (returning_observer g) itr
               (if r = pass then pc + 1 else pc) (tc + 1) s1 (g res ob))
      else run_loop now (returning_filter p) (returning_observer g) itr pc tc s ob)"
  by (simp add: returning_filter_def returning_observer_def Let_def split: prod.splits sum.splits)

lemma run_loop_filter:
  "run_loop now (returning_filter p) observer tests pc tc s ob =
     run_loop now (returning_filter (\<lambda>ti. True)) observer (filter p tests) pc tc s ob"
  by (induction tests arbitrary: pc tc s ob)
    (auto simp: returning_filter_def Let_def split: prod.splits sum.splits option.splits)

lemma run_loop_observer:
  "snd (snd (run_loop now (returning_filter (\<lambda>ti. True)) (returning_observer g) xs pc tc s ob)) =
     fold g (deliveries now xs s) ob"
  by (induction xs arbitrary: pc tc s ob)
    (auto simp: run_loop_returning simp del: run_loop.simps(2) split: prod.splits sum.splits)

lemma run_loop_returns:
  "(\<exists>st. fst (run_loop now (returning_filter (\<lambda>ti. True)) (returning_observer g) xs pc tc s ob) = Inr st) =
     (length (deliveries now xs s) = length xs)"
proof (induction xs arbitrary: pc tc s ob)
  case Nil
  show ?case by simp
next
  case (Cons ti xs)
  obtain r res s1 where one: "run_one now ti Result_init s = (r, res, s1)"
    by (cases "run_one now ti Result_init s")
  show ?case
  proof (cases r)
    case (Inl ex)
    with one show ?thesis by (simp add: run_loop_returning del: run_loop.simps(2))
  next
    case (Inr st)
    with one Cons.IH show ?thesis by (simp add: run_loop_returning del: run_loop.simps(2))
  qed
qed

lemma run_loop_status:
  "fst (run_loop now (returning_filter (\<lambda>ti. True)) (returning_observer g) xs pc tc s ob) = Inr st \<Longrightarrow>
     st = (if pc + of_nat (length (filter (\<lambda>res. status res = pass) (deliveries now xs s)))
              = tc + of_nat (length xs)
           then pass else fail)"
proof (induction xs arbitrary: pc tc s ob)
  case Nil
  then show ?case by auto
next
  case (Cons ti xs)
  obtain r res s1 where one: "run_one now ti Result_init s = (r, res, s1)"
    by (cases "run_one now ti Result_init s")
  show ?case
  proof (cases r)
    case (Inl ex)
    with one Cons.prems show ?thesis by (simp add: run_loop_returning del: run_loop.simps(2))
  next
    case (Inr st1)
    with one have st1: "st1 = status res" by (auto dest: run_one_Inr)
    from Cons.prems one Inr
    have "fst (run_loop now (returning_filter (\<lambda>ti. True)) (returning_observer g) xs
                 (if st1 = pass then pc + 1 else pc) (tc + 1) s1 (g res ob)) = Inr st"
      by (simp add: run_loop_returning del: run_loop.simps(2))
    from Cons.IH [OF this] one Inr st1 show ?thesis
      by (simp add: algebra_simps)
  qed
qed

lemma size_t_count_eq:
  assumes "a \<le> b" and "b < 2 ^ 64"
  shows "((of_nat a :: size_t) = of_nat b) = (a = b)"
proof -
  have "take_bit 64 a = a" "take_bit 64 b = b"
    using assms by (simp_all add: take_bit_nat_eq_self)
  then show ?thesis by (simp add: word_of_nat_eq_iff)
qed

lemma filter_length_eq: "(length (filter P xs) = length xs) = (\<forall>x\<in>set xs. P x)"
proof (induction xs)
  case Nil
  show ?case by simp
next
  case (Cons x xs)
  have "length (filter P xs) \<noteq> Suc (length xs)"
    using length_filter_le [of P xs] by linarith
  with Cons.IH show ?case by auto
qed

lemma deliveries_contained:
  "\<forall>ti\<in>set xs. \<forall>s0. \<exists>st. fst (run_one now ti Result_init s0) = Inr st \<Longrightarrow>
     length (deliveries now xs s) = length xs"
proof (induction xs arbitrary: s)
  case Nil
  show ?case by simp
next
  case (Cons ti xs)
  obtain r res s1 where one: "run_one now ti Result_init s = (r, res, s1)"
    by (cases "run_one now ti Result_init s")
  from Cons.prems have "\<exists>st. fst (run_one now ti Result_init s) = Inr st" by simp
  with one obtain st where "r = Inr st" by auto
  moreover from Cons.prems have "length (deliveries now xs s1) = length xs"
    by (intro Cons.IH) simp
  ultimately show ?case using one by simp
qed

subsection \<open>The loop of the runner with a recording filter and observer\<close>

lemma logging_filter_apply:
  "flt ti s ob = (fr, s1, ob1) \<Longrightarrow>
     logging_filter flt ti s (ob, acc, seen) =
       (fr, s1, (ob1, (if fr = Inr True then acc @ [ti] else acc), seen))"
  by (simp add: logging_filter_def)

lemma logging_observer_apply:
  "observer res s ob = (r, s1, ob1) \<Longrightarrow>
     logging_observer observer res s (ob, acc, seen) = (r, s1, (ob1, acc, seen @ [res]))"
  by (simp add: logging_observer_def)

lemma run_loop_logged:
  "\<exists>acc1 seen1.
     run_loop now (logging_filter flt) (logging_observer observer) tests pc tc s (ob, acc0, seen0) =
       (fst (run_loop now flt observer tests pc tc s ob),
        fst (snd (run_loop now flt observer tests pc tc s ob)),
        (snd (snd (run_loop now flt observer tests pc tc s ob)), acc0 @ acc1, seen0 @ seen1))
     \<and> subseq acc1 tests
     \<and> list_all2
         (\<lambda>ti res. info res = Some ti
            \<and> (\<exists>s0 s1. run_one now ti Result_init s0 = (Inr (status res), res, s1)))
         (take (length seen1) acc1) seen1
     \<and> (case fst (run_loop now flt observer tests pc tc s ob) of
          Inr st \<Rightarrow>
            length seen1 = length acc1
            \<and> st = (if pc + of_nat (length (filter (\<lambda>res. status res = pass) seen1))
                        = tc + of_nat (length seen1)
                     then pass else fail)
        | Inl ex \<Rightarrow>
            (length seen1 = length acc1
               \<and> (\<exists>ti\<in>set tests. \<exists>s0 ob0 s1 ob1. flt ti s0 ob0 = (Inl ex, s1, ob1)))
            \<or> (length acc1 = Suc (length seen1)
               \<and> (\<exists>s0 res s1. run_one now (last acc1) Result_init s0 = (Inl ex, res, s1)))
            \<or> (length seen1 = length acc1 \<and> seen1 \<noteq> []
               \<and> (\<exists>s0 ob0 s1 ob1. observer (last seen1) s0 ob0 = (Some ex, s1, ob1))))"
  (is "\<exists>acc1 seen1. ?P tests pc tc s ob acc0 seen0 acc1 seen1")
proof (induction tests arbitrary: pc tc s ob acc0 seen0)
  case Nil
  have "?P [] pc tc s ob acc0 seen0 [] []" by simp
  then show ?case by blast
next
  case (Cons ti tests)
  obtain fr s1 ob1 where flt: "flt ti s ob = (fr, s1, ob1)"
    by (cases "flt ti s ob")
  note lf = logging_filter_apply [of flt ti s ob fr s1 ob1, OF flt]
  show ?case
  proof (cases fr)
    case (Inl ex)
    have same: "run_loop now flt observer (ti # tests) pc tc s ob = (Inl ex, s1, ob1)"
      using flt Inl by simp
    have samel: "run_loop now (logging_filter flt) (logging_observer observer) (ti # tests) pc tc s
                   (ob, acc0, seen0) = (Inl ex, s1, (ob1, acc0, seen0))"
      using lf Inl by simp
    have "\<exists>ti'\<in>set (ti # tests). \<exists>s0 ob0 s1 ob1. flt ti' s0 ob0 = (Inl ex, s1, ob1)"
      using flt Inl by (intro bexI [of _ ti]) auto
    then have "?P (ti # tests) pc tc s ob acc0 seen0 [] []"
      unfolding same samel by simp
    then show ?thesis by blast
  next
    case (Inr accepted)
    show ?thesis
    proof (cases accepted)
      case False
      from Cons.IH [of pc tc s1 ob1 acc0 seen0]
      obtain acc1 seen1 where ih: "?P tests pc tc s1 ob1 acc0 seen0 acc1 seen1" by blast
      have same: "run_loop now flt observer (ti # tests) pc tc s ob
                    = run_loop now flt observer tests pc tc s1 ob1"
        using flt Inr False by simp
      have samel: "run_loop now (logging_filter flt) (logging_observer observer) (ti # tests) pc tc s
                     (ob, acc0, seen0)
                    = run_loop now (logging_filter flt) (logging_observer observer) tests pc tc s1
                        (ob1, acc0, seen0)"
        using lf Inr False by simp
      let ?R = "run_loop now flt observer tests pc tc s1 ob1"
      note i1 = ih [THEN conjunct1]
        and i2 = ih [THEN conjunct2, THEN conjunct1]
        and i3 = ih [THEN conjunct2, THEN conjunct2, THEN conjunct1]
        and i4 = ih [THEN conjunct2, THEN conjunct2, THEN conjunct2]
      have g4: "case fst ?R of
          Inr st \<Rightarrow>
            length seen1 = length acc1
            \<and> st = (if pc + of_nat (length (filter (\<lambda>res. status res = pass) seen1))
                        = tc + of_nat (length seen1)
                     then pass else fail)
        | Inl ex \<Rightarrow>
            (length seen1 = length acc1
               \<and> (\<exists>ti\<in>set (ti # tests). \<exists>s0 ob0 s1 ob1. flt ti s0 ob0 = (Inl ex, s1, ob1)))
            \<or> (length acc1 = Suc (length seen1)
               \<and> (\<exists>s0 res s1. run_one now (last acc1) Result_init s0 = (Inl ex, res, s1)))
            \<or> (length seen1 = length acc1 \<and> seen1 \<noteq> []
               \<and> (\<exists>s0 ob0 s1 ob1. observer (last seen1) s0 ob0 = (Some ex, s1, ob1)))"
      proof (cases "fst ?R")
        case (Inr st)
        with i4 show ?thesis by simp
      next
        case (Inl ex)
        with i4 show ?thesis by auto
      qed
      have g2: "subseq acc1 (ti # tests)" using i2 by (rule list_emb_Cons)
      have "?P (ti # tests) pc tc s ob acc0 seen0 acc1 seen1"
        unfolding same samel by (intro conjI i1 g2 i3 g4)
      then show ?thesis by blast
    next
      case True
      obtain r res s2 where one: "run_one now ti Result_init s1 = (r, res, s2)"
        by (cases "run_one now ti Result_init s1")
      show ?thesis
      proof (cases r)
        case (Inl ex)
        have same: "run_loop now flt observer (ti # tests) pc tc s ob = (Inl ex, s2, ob1)"
          using flt \<open>fr = Inr accepted\<close> True one Inl by simp
        have samel: "run_loop now (logging_filter flt) (logging_observer observer) (ti # tests) pc tc s
                   (ob, acc0, seen0) = (Inl ex, s2, (ob1, acc0 @ [ti], seen0))"
          using lf \<open>fr = Inr accepted\<close> True one Inl by simp
        have "\<exists>s0 res s1. run_one now (last [ti]) Result_init s0 = (Inl ex, res, s1)"
          using one Inl by auto
        then have "?P (ti # tests) pc tc s ob acc0 seen0 [ti] []"
          unfolding same samel by simp
        then show ?thesis by blast
      next
        case (Inr st1)
        with one have ex1: "info res = Some ti"
          "\<exists>s0 s1. run_one now ti Result_init s0 = (Inr (status res), res, s1)"
          and st1: "st1 = status res"
          by (auto dest: run_one_Inr)
        obtain orr s3 ob2 where obs: "observer res s2 ob1 = (orr, s3, ob2)"
          by (cases "observer res s2 ob1")
        note lo = logging_observer_apply [of observer res s2 ob1 orr s3 ob2, OF obs]
        show ?thesis
        proof (cases orr)
          case (Some ex)
          have same: "run_loop now flt observer (ti # tests) pc tc s ob = (Inl ex, s3, ob2)"
            using flt \<open>fr = Inr accepted\<close> True one Inr obs Some by (simp add: Let_def)
          have samel: "run_loop now (logging_filter flt) (logging_observer observer) (ti # tests) pc tc s
                   (ob, acc0, seen0) = (Inl ex, s3, (ob2, acc0 @ [ti], seen0 @ [res]))"
            using lf \<open>fr = Inr accepted\<close> True one Inr lo Some by (simp add: Let_def)
          have "\<exists>s0 ob0 s1 ob1. observer (last [res]) s0 ob0 = (Some ex, s1, ob1)"
            using obs Some by auto
          then have "?P (ti # tests) pc tc s ob acc0 seen0 [ti] [res]"
            unfolding same samel using ex1 by simp
          then show ?thesis by blast
        next
          case None
          let ?pc1 = "if st1 = pass then pc + 1 else pc"
          from Cons.IH [of ?pc1 "tc + 1" s3 ob2 "acc0 @ [ti]" "seen0 @ [res]"]
          obtain acc1 seen1 where
            ih: "?P tests ?pc1 (tc + 1) s3 ob2 (acc0 @ [ti]) (seen0 @ [res]) acc1 seen1"
            by blast
          have same: "run_loop now flt observer (ti # tests) pc tc s ob
                        = run_loop now flt observer tests ?pc1 (tc + 1) s3 ob2"
            using flt \<open>fr = Inr accepted\<close> True one Inr obs None by (simp add: Let_def)
          have samel: "run_loop now (logging_filter flt) (logging_observer observer) (ti # tests)
                         pc tc s (ob, acc0, seen0)
                        = run_loop now (logging_filter flt) (logging_observer observer) tests
                            ?pc1 (tc + 1) s3 (ob2, acc0 @ [ti], seen0 @ [res])"
            using lf \<open>fr = Inr accepted\<close> True one Inr lo None by (simp add: Let_def)
          let ?R = "run_loop now flt observer tests ?pc1 (tc + 1) s3 ob2"
          note i1 = ih [THEN conjunct1]
            and i2 = ih [THEN conjunct2, THEN conjunct1]
            and i3 = ih [THEN conjunct2, THEN conjunct2, THEN conjunct1]
            and i4 = ih [THEN conjunct2, THEN conjunct2, THEN conjunct2]
          have g1: "run_loop now (logging_filter flt) (logging_observer observer) tests
            ?pc1 (tc + 1) s3 (ob2, acc0 @ [ti], seen0 @ [res]) =
              (fst ?R, fst (snd ?R), (snd (snd ?R), acc0 @ ti # acc1, seen0 @ res # seen1))"
            using i1 by simp
          have g2: "subseq (ti # acc1) (ti # tests)" using i2 by simp
          have g3: "list_all2
             (\<lambda>ti res. info res = Some ti
                \<and> (\<exists>s0 s1. run_one now ti Result_init s0 = (Inr (status res), res, s1)))
             (take (length (res # seen1)) (ti # acc1)) (res # seen1)"
            using i3 ex1 by simp
          have g4: "case fst ?R of
              Inr st \<Rightarrow>
                length (res # seen1) = length (ti # acc1)
                \<and> st = (if pc + of_nat (length (filter (\<lambda>res. status res = pass) (res # seen1)))
                            = tc + of_nat (length (res # seen1))
                         then pass else fail)
            | Inl ex \<Rightarrow>
                (length (res # seen1) = length (ti # acc1)
                   \<and> (\<exists>ti\<in>set (ti # tests). \<exists>s0 ob0 s1 ob1. flt ti s0 ob0 = (Inl ex, s1, ob1)))
                \<or> (length (ti # acc1) = Suc (length (res # seen1))
                   \<and> (\<exists>s0 res s1. run_one now (last (ti # acc1)) Result_init s0 = (Inl ex, res, s1)))
                \<or> (length (res # seen1) = length (ti # acc1) \<and> res # seen1 \<noteq> []
                   \<and> (\<exists>s0 ob0 s1 ob1. observer (last (res # seen1)) s0 ob0 = (Some ex, s1, ob1)))"
          proof (cases "fst ?R")
            case (Inr st)
            with i4 have len: "length seen1 = length acc1"
              and st: "st = (if ?pc1 + of_nat (length (filter (\<lambda>res. status res = pass) seen1))
                        = tc + 1 + of_nat (length seen1)
                     then pass else fail)"
              by simp_all
            have "(?pc1 + of_nat (length (filter (\<lambda>res. status res = pass) seen1))
                      = tc + 1 + of_nat (length seen1))
                = (pc + of_nat (length (filter (\<lambda>res. status res = pass) (res # seen1)))
                      = tc + of_nat (length (res # seen1)))"
              using st1 by (simp add: algebra_simps)
            with st len Inr show ?thesis by simp
          next
            case (Inl ex)
            from i4 Inl consider
              (a) "length seen1 = length acc1"
                  "\<exists>ti\<in>set tests. \<exists>s0 ob0 s1 ob1. flt ti s0 ob0 = (Inl ex, s1, ob1)"
            | (b) "length acc1 = Suc (length seen1)"
                  "\<exists>s0 res s1. run_one now (last acc1) Result_init s0 = (Inl ex, res, s1)"
            | (c) "length seen1 = length acc1" "seen1 \<noteq> []"
                  "\<exists>s0 ob0 s1 ob1. observer (last seen1) s0 ob0 = (Some ex, s1, ob1)"
              by (simp only: sum.case) (elim disjE conjE; simp)
            then show ?thesis
            proof cases
              case a
              then have "\<exists>ti\<in>set (ti # tests). \<exists>s0 ob0 s1 ob1. flt ti s0 ob0 = (Inl ex, s1, ob1)"
                by (metis list.set_intros(2))
              with a Inl show ?thesis by simp
            next
              case b
              then have "acc1 \<noteq> []" by auto
              then have "last (ti # acc1) = last acc1" by simp
              with b Inl show ?thesis by simp
            next
              case c
              then have "last (res # seen1) = last seen1" by simp
              with c Inl show ?thesis by simp
            qed
          qed
          have "?P (ti # tests) pc tc s ob acc0 seen0 (ti # acc1) (res # seen1)"
            unfolding same samel by (intro conjI g1 g2 g3 g4)
          then show ?thesis by blast
        qed
      qed
    qed
  qed
qed



lemma run_logged_status:
  assumes "run now (logging_filter flt) (logging_observer observer) tests s (ob, [], [])
             = (Inr st, s', (ob', acc, seen))"
    and "length acc < 2 ^ 64"
  shows "length seen = length acc \<and> (st = pass \<or> st = fail)
       \<and> (st = pass) = (\<forall>res\<in>set seen. status res = pass)"
proof -
  let ?R = "run_loop now flt observer tests 0 0 s ob"
  from run_loop_logged [of now flt observer tests 0 0 s ob "[]" "[]"]
  obtain acc1 seen1 where
    l1: "run_loop now (logging_filter flt) (logging_observer observer) tests 0 0 s (ob, [], []) =
          (fst ?R, fst (snd ?R), (snd (snd ?R), [] @ acc1, [] @ seen1))"
    and l4: "case fst ?R of
          Inr st \<Rightarrow>
            length seen1 = length acc1
            \<and> st = (if (0::size_t) + of_nat (length (filter (\<lambda>res. status res = pass) seen1))
                        = 0 + of_nat (length seen1)
                     then pass else fail)
        | Inl ex \<Rightarrow>
            (length seen1 = length acc1
               \<and> (\<exists>ti\<in>set tests. \<exists>s0 ob0 s1 ob1. flt ti s0 ob0 = (Inl ex, s1, ob1)))
            \<or> (length acc1 = Suc (length seen1)
               \<and> (\<exists>s0 res s1. run_one now (last acc1) Result_init s0 = (Inl ex, res, s1)))
            \<or> (length seen1 = length acc1 \<and> seen1 \<noteq> []
               \<and> (\<exists>s0 ob0 s1 ob1. observer (last seen1) s0 ob0 = (Some ex, s1, ob1)))"
    by (elim exE conjE)
  from assms(1) l1 have eqs: "fst ?R = Inr st" "acc = acc1" "seen = seen1"
    by (simp_all add: run_def)
  let ?k = "length (filter (\<lambda>res. status res = pass) seen)"
  from l4 have len: "length seen = length acc"
    and st: "st = (if (of_nat ?k :: size_t) = of_nat (length seen) then pass else fail)"
    unfolding eqs by simp_all
  have "?k \<le> length seen" by (rule length_filter_le)
  moreover have "length seen < 2 ^ 64" using assms(2) len by simp
  ultimately have w: "((of_nat ?k :: size_t) = of_nat (length seen)) = (?k = length seen)"
    by (rule size_t_count_eq)
  have two: "st = pass \<or> st = fail" using st by (simp split: if_splits)
  have "(st = pass) = ((of_nat ?k :: size_t) = of_nat (length seen))"
    using st by (simp split: if_splits)
  also have "\<dots> = (?k = length seen)" by (rule w)
  also have "\<dots> = (\<forall>res\<in>set seen. status res = pass)" by (rule filter_length_eq)
  finally show ?thesis using two len by blast
qed

subsection \<open>Evaluation\<close>

text \<open>The definitions that evaluating a concrete test or run unfolds.\<close>

lemmas ex_defs = execute_def try_block_def ticking_def clock_def Let_def
  Result_init_def Result_fail_def Result_exception_def duration_cast_milliseconds_def
  Basic_Assert_fail_def Default_Fail_Handler_handle_def is_true_def

lemmas run_defs = run_def run_all_def run_one_def descriptor_def recording_def
  returning_filter_def returning_observer_def logging_filter_def logging_observer_def
  throwing_observer_def

lemma suite_fast: "filter fast suite = [descriptor passing_test ''t1'' ''fast'', descriptor passing_test ''t3'' ''fast'']"
  by (simp add: suite_def fast_def descriptor_def)

lemma suite_run:
  "run clock (returning_filter fast) (returning_observer recording) suite 0 [] =
     (Inr pass, 5004000,
      [Result_init\<lparr>info := Some (descriptor passing_test ''t1'' ''fast''), status := pass, duration := 2\<rparr>,
       Result_init\<lparr>info := Some (descriptor passing_test ''t3'' ''fast''), status := pass, duration := 2\<rparr>])"
  by (simp add: run_defs suite_def fast_def ex_defs passing_test_def)


lemma suite_deliveries:
  "deliveries clock (filter fast suite) 0 =
     [Result_init\<lparr>info := Some (descriptor passing_test ''t1'' ''fast''), status := pass, duration := 2\<rparr>,
      Result_init\<lparr>info := Some (descriptor passing_test ''t3'' ''fast''), status := pass, duration := 2\<rparr>]"
  by (simp add: run_defs suite_def fast_def ex_defs passing_test_def)

section \<open>The lifecycle: what \<open>execute\<close> contains and what it lets out\<close>

text \<open>
  C1, as the code has it. \<open>execute\<close> returns a \<open>Status\<close> exactly when setup and body throw
  nothing that is not derived from \<open>std::exception\<close> and the teardown throws nothing.
  When it returns, the status returned is the one stored in the \<open>Result\<close>, it is \<open>pass\<close> or
  \<open>fail\<close> (\<open>pass\<close> exactly when setup and body threw nothing), and the duration stored is
  the time between the two readings of the clock, in milliseconds.
\<close>

theorem execute_containment:
  assumes "execute now t res s = (r, res', s')"
  shows "((\<exists>st. r = Inr st) =
            (fst (try_block t s) \<noteq> Some other_exception
             \<and> fst (post_test t (snd (try_block t s))) = None))
       \<and> (\<forall>st. r = Inr st \<longrightarrow>
             st = status res' \<and> (st = pass \<or> st = fail)
             \<and> (st = pass) = (fst (try_block t s) = None)
             \<and> duration res' = duration_cast_milliseconds (now s' - now s))"
proof (cases "try_block t s")
  case (Pair x s1)
  show ?thesis
  proof (cases x)
    case None
    with Pair assms show ?thesis
      by (cases "post_test t s1") (auto simp: execute_def Let_def split: option.splits)
  next
    case (Some ex)
    show ?thesis
    proof (cases "handlers ex res")
      case (Inl e)
      with Some Pair assms show ?thesis
        by (auto simp: execute_def handlers_Inl)
    next
      case (Inr res1)
      then have "ex \<noteq> other_exception" by auto
      moreover have "status res1 = fail" using Inr by (rule handlers_Inr_status)
      ultimately show ?thesis using Inr Some Pair assms
        by (cases "post_test t s1") (auto simp: execute_def Let_def split: option.splits)
    qed
  qed
qed

text \<open>The test whose body is \<open>UASSERT_TRUE(false)\<close>: the failure is contained.\<close>

theorem execute_containment_witness:
  "execute clock asserting_test (Result_init :: nat Result) 0 =
     (Inr fail, Result_fail Result_init ''Expected [true] saw [false]'' ''t.cpp'' 12, 3000)
   \<and> fst (try_block asserting_test 0) \<noteq> Some other_exception
   \<and> fst (post_test asserting_test (snd (try_block asserting_test 0))) = None"
proof -
  have h: "execute clock asserting_test (Result_init :: nat Result) 0 =
     (Inr fail, Result_fail Result_init ''Expected [true] saw [false]'' ''t.cpp'' 12, 3000)"
    by (simp add: ex_defs asserting_test_def)
  from execute_containment [OF h] show ?thesis using h by simp
qed

text \<open>
  C1 as the specification words it does not hold: \<open>throw 42;\<close> in the body leaves
  \<open>execute\<close>, and so does a \<open>std::runtime_error\<close> thrown by the teardown.
\<close>

theorem execute_containment_counterexample:
  "fst (execute clock alien_test (Result_init :: nat Result) 0) = Inl other_exception
   \<and> fst (execute clock teardown_throwing_test (Result_init :: nat Result) 0)
       = Inl (std_exception (Some ''boom''))"
  by (simp add: ex_defs alien_test_def teardown_throwing_test_def)

text \<open>
  C2, as the code has it. Executing the instrumented test behaves as executing the test
  itself, and the log gains exactly one call of \<open>post_test\<close> when setup and body return or
  throw an object derived from \<open>std::exception\<close> (a failure signal included), and none when
  one of them throws anything else.
\<close>

theorem teardown_calls:
  assumes "execute (\<lambda>p. now (fst p)) (traced t) res (s, calls) = (r, res', (s', calls'))"
  shows "execute now t res s = (r, res', s')
       \<and> count_list calls' Post_test =
           count_list calls Post_test + (if fst (try_block t s) = Some other_exception then 0 else 1)"
proof (cases "try_block t s")
  case (Pair x s1)
  obtain y s2 where post: "post_test t s1 = (y, s2)" by (cases "post_test t s1")
  show ?thesis
  proof (cases x)
    case None
    with Pair post assms show ?thesis
      by (auto simp: execute_def Let_def traced_try_block traced_post_test split: option.splits)
  next
    case (Some ex)
    show ?thesis
    proof (cases "handlers ex res")
      case (Inl e)
      with Some Pair assms show ?thesis
        by (auto simp: execute_def traced_try_block handlers_Inl split: option.splits)
    next
      case (Inr res1)
      then have "ex \<noteq> other_exception" by auto
      with Inr Some Pair post assms show ?thesis
        by (auto simp: execute_def Let_def traced_try_block traced_post_test split: option.splits)
    qed
  qed
qed

theorem teardown_calls_witness:
  "execute (\<lambda>p. clock (fst p)) (traced asserting_test) (Result_init :: nat Result) (0, []) =
     (Inr fail, Result_fail Result_init ''Expected [true] saw [false]'' ''t.cpp'' 12,
      (3000, [Pre_test, Execute_test, Post_test]))
   \<and> count_list [Pre_test, Execute_test, Post_test] Post_test = 1"
proof -
  have h: "execute (\<lambda>p. clock (fst p)) (traced asserting_test) (Result_init :: nat Result) (0, []) =
     (Inr fail, Result_fail Result_init ''Expected [true] saw [false]'' ''t.cpp'' 12,
      (3000, [Pre_test, Execute_test, Post_test]))"
    by (simp add: ex_defs asserting_test_def traced_def traced_hook_def)
  from teardown_calls [OF h] show ?thesis using h by simp
qed

text \<open>
  C2 as the specification words it does not hold: when the body is \<open>throw 42;\<close> the
  hooks called are \<open>pre_test\<close> and \<open>execute_test\<close>, and \<open>post_test\<close> is not called.
\<close>

theorem teardown_calls_counterexample:
  "execute (\<lambda>p. clock (fst p)) (traced alien_test) (Result_init :: nat Result) (0, []) =
     (Inl other_exception, Result_init, (2000, [Pre_test, Execute_test]))
   \<and> count_list [Pre_test, Execute_test] Post_test = 0"
  by (simp add: ex_defs alien_test_def traced_def traced_hook_def)

section \<open>The lifecycle: what the \<open>Result\<close> holds\<close>

text \<open>
  C3, as the code has it. When the setup returns and the body throws a \<open>std::exception\<close>
  other than the failure signal, the \<open>Result\<close> after \<open>execute\<close> has status \<open>fail\<close>; its
  message is \<open>unhandled exception: \<close> followed by the description \<open>D\<close> when \<open>what()\<close>
  is a string \<open>D\<close>, the empty string included, and the bare \<open>unhandled exception\<close> only
  when \<open>what()\<close> is a null pointer; \<open>err_file\<close> and \<open>err_line\<close> are as they were before
  the call.
\<close>

theorem unhandled_exception_result:
  assumes "pre_test t s = (None, s1)"
    and "execute_test t s1 = (Some (std_exception w), s2)"
    and "execute now t res s = (r, res', s')"
  shows "status res' = fail
       \<and> err_message res' =
           (case w of Some D \<Rightarrow> ''unhandled exception: '' @ D | None \<Rightarrow> ''unhandled exception'')
       \<and> err_file res' = err_file res
       \<and> err_line res' = err_line res"
  using assms
  by (auto simp: execute_def try_block_def Result_exception_def Let_def split: prod.splits option.splits)

theorem unhandled_exception_result_witness:
  "pre_test (throwing_test (Some ''boom'')) 0 = (None, 1000)
   \<and> execute_test (throwing_test (Some ''boom'')) 1000 = (Some (std_exception (Some ''boom'')), 2000)
   \<and> execute clock (throwing_test (Some ''boom'')) (Result_init :: nat Result) 0 =
       (Inr fail,
        Result_init\<lparr>status := fail, err_message := ''unhandled exception: boom''\<rparr>, 3000)"
proof -
  have h1: "pre_test (throwing_test (Some ''boom'')) 0 = (None, 1000)"
    by (simp add: throwing_test_def ticking_def)
  have h2: "execute_test (throwing_test (Some ''boom'')) 1000 = (Some (std_exception (Some ''boom'')), 2000)"
    by (simp add: throwing_test_def ticking_def)
  have h3: "execute clock (throwing_test (Some ''boom'')) (Result_init :: nat Result) 0 =
       (Inr fail,
        Result_init\<lparr>status := fail, err_message := ''unhandled exception: boom''\<rparr>, 3000)"
    by (simp add: ex_defs throwing_test_def)
  from unhandled_exception_result [OF h1 h2 h3] show ?thesis using h1 h2 h3 by simp
qed

text \<open>
  C3 as the specification words it does not hold: for the empty description the message
  is \<open>unhandled exception: \<close>, colon and space included, not the bare string.
\<close>

theorem unhandled_exception_counterexample:
  "err_message (fst (snd (execute clock (throwing_test (Some [])) (Result_init :: nat Result) 0)))
     = ''unhandled exception: ''
   \<and> err_message (fst (snd (execute clock (throwing_test (Some [])) (Result_init :: nat Result) 0)))
     \<noteq> ''unhandled exception''"
  by (simp add: ex_defs throwing_test_def)

text \<open>
  C5. When the setup returns and the body throws the failure signal with message \<open>M\<close>,
  file \<open>F\<close> and line \<open>L\<close>, the \<open>Result\<close> after \<open>execute\<close> has status \<open>fail\<close>, message
  \<open>M\<close>, file \<open>F\<close> and line \<open>L\<close>, whatever the teardown does.
\<close>

theorem failure_signal_result:
  assumes "pre_test t s = (None, s1)"
    and "execute_test t s1 = (Some (assert_fail_exception M F L), s2)"
    and "execute now t res s = (r, res', s')"
  shows "status res' = fail \<and> err_message res' = M \<and> err_file res' = F \<and> err_line res' = L"
  using assms
  by (auto simp: execute_def try_block_def Result_fail_def Let_def split: prod.splits option.splits)

theorem failure_signal_result_witness:
  "pre_test asserting_test 0 = (None, 1000)
   \<and> execute_test asserting_test 1000 =
       (Some (assert_fail_exception ''Expected [true] saw [false]'' ''t.cpp'' 12), 2000)
   \<and> execute clock asserting_test (Result_init :: nat Result) 0 =
       (Inr fail,
        Result_init\<lparr>status := fail, err_message := ''Expected [true] saw [false]'',
                     err_file := ''t.cpp'', err_line := 12\<rparr>, 3000)"
proof -
  have h1: "pre_test asserting_test 0 = (None, 1000)"
    by (simp add: asserting_test_def ticking_def)
  have h2: "execute_test asserting_test 1000 =
       (Some (assert_fail_exception ''Expected [true] saw [false]'' ''t.cpp'' 12), 2000)"
    by (simp add: ex_defs asserting_test_def)
  have h3: "execute clock asserting_test (Result_init :: nat Result) 0 =
       (Inr fail,
        Result_init\<lparr>status := fail, err_message := ''Expected [true] saw [false]'',
                     err_file := ''t.cpp'', err_line := 12\<rparr>, 3000)"
    by (simp add: ex_defs asserting_test_def)
  from failure_signal_result [OF h1 h2 h3] show ?thesis using h1 h2 h3 by simp
qed

text \<open>
  C8, as the code has it. When setup, body and teardown return, the clock has not gone
  backwards between the two readings, and the message of the \<open>Result\<close> was empty before
  the call (as in a fresh \<open>Result\<close>), \<open>execute\<close> returns \<open>pass\<close> and the \<open>Result\<close> has status
  \<open>pass\<close>, an empty message and a duration that is not negative.
\<close>

theorem passing_result:
  assumes "pre_test t s = (None, s1)"
    and "execute_test t s1 = (None, s2)"
    and "post_test t s2 = (None, s3)"
    and "now s \<le> now s3"
    and "err_message res = []"
    and "execute now t res s = (r, res', s')"
  shows "r = Inr pass \<and> status res' = pass \<and> err_message res' = [] \<and> 0 \<le> duration res'"
  using assms
  by (auto simp: execute_def try_block_def Let_def duration_cast_milliseconds_nonneg)

theorem passing_result_witness:
  "pre_test passing_test 0 = (None, 1000)
   \<and> execute_test passing_test 1000 = (None, 2501000)
   \<and> post_test passing_test 2501000 = (None, 2502000)
   \<and> clock 0 \<le> clock 2502000
   \<and> err_message (Result_init :: nat Result) = []
   \<and> execute clock passing_test (Result_init :: nat Result) 0 =
       (Inr pass, Result_init\<lparr>status := pass, duration := 2\<rparr>, 2502000)"
proof -
  have h1: "pre_test passing_test 0 = (None, 1000)"
    and h2: "execute_test passing_test 1000 = (None, 2501000)"
    and h3: "post_test passing_test 2501000 = (None, 2502000)"
    by (simp_all add: passing_test_def ticking_def)
  have h4: "clock 0 \<le> clock 2502000" by (simp add: clock_def)
  have h5: "err_message (Result_init :: nat Result) = []" by (simp add: Result_init_def)
  have h6: "execute clock passing_test (Result_init :: nat Result) 0 =
       (Inr pass, Result_init\<lparr>status := pass, duration := 2\<rparr>, 2502000)"
    by (simp add: ex_defs passing_test_def)
  from passing_result [OF h1 h2 h3 h4 h5 h6] show ?thesis using h1 h2 h3 h4 h5 h6 by simp
qed

text \<open>
  C8 as the specification words it does not hold. Setup and body of the first test
  return and its teardown throws: \<open>execute\<close> returns no status. Setup and body of the
  second test return and the \<open>Result\<close> handed in is left over from a failed execution: its
  message is still there after the call.
\<close>

theorem passing_result_counterexample:
  "pre_test teardown_throwing_test 0 = (None, 1000)
   \<and> execute_test teardown_throwing_test 1000 = (None, 2000)
   \<and> fst (execute clock teardown_throwing_test (Result_init :: nat Result) 0)
       = Inl (std_exception (Some ''boom''))
   \<and> pre_test passing_test 0 = (None, 1000)
   \<and> execute_test passing_test 1000 = (None, 2501000)
   \<and> err_message (fst (snd (execute clock passing_test (stale_result :: nat Result) 0)))
       = ''Expected [true] saw [false]''"
  by (simp add: ex_defs passing_test_def teardown_throwing_test_def stale_result_def)

text \<open>
  C10. When setup, body and teardown return, the \<open>Result\<close> after \<open>execute\<close> is the one
  handed in with \<open>status\<close> and \<open>duration\<close> overwritten: \<open>info\<close>, \<open>err_message\<close>, \<open>err_file\<close>
  and \<open>err_line\<close> keep the values they had before the call.
\<close>

theorem execute_frame:
  assumes "pre_test t s = (None, s1)"
    and "execute_test t s1 = (None, s2)"
    and "post_test t s2 = (None, s3)"
    and "execute now t res s = (r, res', s')"
  shows "res' = res\<lparr>status := pass, duration := duration_cast_milliseconds (now s3 - now s)\<rparr>
       \<and> info res' = info res \<and> err_message res' = err_message res
       \<and> err_file res' = err_file res \<and> err_line res' = err_line res"
  using assms by (auto simp: execute_def try_block_def Let_def)

text \<open>A passing run on a \<open>Result\<close> left over from a failed one keeps the stale error fields.\<close>

theorem execute_frame_witness:
  "pre_test passing_test 0 = (None, 1000)
   \<and> execute_test passing_test 1000 = (None, 2501000)
   \<and> post_test passing_test 2501000 = (None, 2502000)
   \<and> execute clock passing_test (stale_result :: nat Result) 0 =
       (Inr pass,
        \<lparr>info = None, status = pass, duration = 2,
         err_message = ''Expected [true] saw [false]'', err_file = ''t.cpp'', err_line = 12\<rparr>,
        2502000)"
proof -
  have h1: "pre_test passing_test 0 = (None, 1000)"
    and h2: "execute_test passing_test 1000 = (None, 2501000)"
    and h3: "post_test passing_test 2501000 = (None, 2502000)"
    by (simp_all add: passing_test_def ticking_def)
  have h4: "execute clock passing_test (stale_result :: nat Result) 0 =
       (Inr pass,
        \<lparr>info = None, status = pass, duration = 2,
         err_message = ''Expected [true] saw [false]'', err_file = ''t.cpp'', err_line = 12\<rparr>,
        2502000)"
    by (simp add: ex_defs passing_test_def stale_result_def)
  from execute_frame [OF h1 h2 h3 h4] show ?thesis using h1 h2 h3 h4 by simp
qed

text \<open>
  C9, as the code has it. After executing a test on a fresh \<open>Result\<close> (stamped with a
  descriptor or not): if the status is \<open>fail\<close>, the message is empty exactly when setup or
  body threw a failure signal whose message is empty; if the status is \<open>pass\<close>, the message
  and the file are empty and the line is \<open>0\<close>.
\<close>

theorem result_invariant:
  assumes "execute now t (Result_init\<lparr>info := i\<rparr>) s = (r, res', s')"
  shows "(status res' = fail \<longrightarrow>
            (err_message res' = []) =
              (\<exists>fl ln. fst (try_block t s) = Some (assert_fail_exception [] fl ln)))
       \<and> (status res' = pass \<longrightarrow>
            err_message res' = [] \<and> err_file res' = [] \<and> err_line res' = 0)"
proof (cases "try_block t s")
  case (Pair x s1)
  obtain y s2 where post: "post_test t s1 = (y, s2)" by (cases "post_test t s1")
  show ?thesis
  proof (cases x)
    case None
    with Pair post assms show ?thesis
      by (auto simp: execute_def Let_def Result_init_def split: option.splits)
  next
    case (Some ex)
    with Pair post assms show ?thesis
      by (cases ex)
        (auto simp: execute_def Let_def Result_init_def Result_fail_def Result_exception_def
          split: option.splits)
  qed
qed

theorem result_invariant_witness:
  "execute clock asserting_test (Result_init\<lparr>info := Some (5::nat)\<rparr>) 0 =
     (Inr fail,
      \<lparr>info = Some 5, status = fail, duration = 0,
       err_message = ''Expected [true] saw [false]'', err_file = ''t.cpp'', err_line = 12\<rparr>,
      3000)
   \<and> ''Expected [true] saw [false]'' \<noteq> []
   \<and> fst (try_block asserting_test 0)
       = Some (assert_fail_exception ''Expected [true] saw [false]'' ''t.cpp'' 12)"
proof -
  have h: "execute clock asserting_test (Result_init\<lparr>info := Some (5::nat)\<rparr>) 0 =
     (Inr fail,
      \<lparr>info = Some 5, status = fail, duration = 0,
       err_message = ''Expected [true] saw [false]'', err_file = ''t.cpp'', err_line = 12\<rparr>,
      3000)"
    by (simp add: ex_defs asserting_test_def)
  from result_invariant [OF h] show ?thesis
    using h by (simp add: ex_defs asserting_test_def)
qed

text \<open>
  C9 as the specification words it does not hold: the body \<open>utest::assert::fail("")\<close>
  leaves a \<open>Result\<close> with status \<open>fail\<close> and an empty message.
\<close>

theorem result_invariant_counterexample:
  "execute_test empty_fail_test 1000 = (Basic_Assert_fail Default_Fail_Handler_handle [] [] 0, 2000)
   \<and> status (fst (snd (execute clock empty_fail_test (Result_init :: nat Result) 0))) = fail
   \<and> err_message (fst (snd (execute clock empty_fail_test (Result_init :: nat Result) 0))) = []"
  by (simp add: ex_defs empty_fail_test_def)

section \<open>The assertion layer: the null checks\<close>

text \<open>
  C4, as the code has it. With the default fail handler, \<open>is_null\<close> returns normally exactly
  on the null pointer and otherwise throws the failure signal with the message
  \<open>Expected [nullptr]\<close>; \<open>is_not_null\<close> returns normally exactly on a non-null pointer and
  otherwise throws the failure signal with the message \<open>Expected not [nullptr]\<close>. The signal
  carries the file and line handed to the check.
\<close>

theorem null_checks_messages:
  "is_null Default_Fail_Handler_handle p fl ln =
     (if p = nullptr then None
      else Some (assert_fail_exception ''Expected [nullptr]'' fl ln))
   \<and> is_not_null Default_Fail_Handler_handle p fl ln =
     (if p = nullptr then Some (assert_fail_exception ''Expected not [nullptr]'' fl ln)
      else None)"
  by (simp add: is_null_def is_not_null_def Basic_Assert_fail_def Default_Fail_Handler_handle_def)

text \<open>
  C4 as the specification words it does not hold: the message thrown for a non-null
  pointer is \<open>Expected [nullptr]\<close>, not \<open>Expected [null]\<close>, and the message thrown for the
  null pointer is \<open>Expected not [nullptr]\<close>, not \<open>Expected not [null]\<close>.
\<close>

theorem null_checks_counterexample:
  "is_null Default_Fail_Handler_handle (Ptr (7::nat)) [] 0
     = Some (assert_fail_exception ''Expected [nullptr]'' [] 0)
   \<and> ''Expected [nullptr]'' \<noteq> ''Expected [null]''
   \<and> is_not_null Default_Fail_Handler_handle (nullptr :: nat ptr) [] 0
     = Some (assert_fail_exception ''Expected not [nullptr]'' [] 0)
   \<and> ''Expected not [nullptr]'' \<noteq> ''Expected not [null]''"
  by (simp add: is_null_def is_not_null_def Basic_Assert_fail_def Default_Fail_Handler_handle_def)

section \<open>The runner: aggregate status and observer calls\<close>

text \<open>
  C6. For a filter that is a predicate on the descriptor and an observer that returns and
  keeps to the caller's state: running a range with the filter is running the accepted
  descriptors alone, so the rejected ones have no influence on the aggregate; when nothing
  is accepted the run returns \<open>pass\<close> and leaves state and observer untouched; when no
  execution of an accepted descriptor lets an exception out, the run returns a status; and
  whenever the run returns a status, with fewer than \<open>2 ^ 64\<close> descriptors accepted (the
  counters are \<open>size_t\<close>), every accepted descriptor was executed and the status is \<open>pass\<close>
  exactly when every one of these executions ended with status \<open>pass\<close>, and \<open>fail\<close>
  otherwise. The last part holds for every filter and observer, also one that changes the
  program state: whenever the run returns a status, the observer was called for every
  accepted descriptor, and the status is \<open>pass\<close> exactly when every \<open>Result\<close> it was called
  with has status \<open>pass\<close>.
\<close>

theorem run_aggregate:
  "run now (returning_filter flt) (returning_observer observer) tests s ob =
     run_all now (returning_observer observer) (filter flt tests) s ob
   \<and> (filter flt tests = [] \<longrightarrow>
        run now (returning_filter flt) (returning_observer observer) tests s ob = (Inr pass, s, ob))
   \<and> ((\<forall>ti\<in>set (filter flt tests). \<forall>s0. \<exists>st. fst (run_one now ti Result_init s0) = Inr st) \<longrightarrow>
        (\<exists>st. fst (run now (returning_filter flt) (returning_observer observer) tests s ob) = Inr st))
   \<and> (length (filter flt tests) < 2 ^ 64 \<longrightarrow>
        (\<forall>st. fst (run now (returning_filter flt) (returning_observer observer) tests s ob) = Inr st \<longrightarrow>
           (st = pass \<or> st = fail)
           \<and> length (deliveries now (filter flt tests) s) = length (filter flt tests)
           \<and> (st = pass) =
               (\<forall>res\<in>set (deliveries now (filter flt tests) s). status res = pass)))
   \<and> (\<forall>st s' ob' acc seen.
         run now (logging_filter any_filter) (logging_observer any_observer) tests s (any_ob, [], [])
           = (Inr st, s', (ob', acc, seen))
         \<and> length acc < 2 ^ 64 \<longrightarrow>
           length seen = length acc \<and> (st = pass \<or> st = fail)
           \<and> (st = pass) = (\<forall>res\<in>set seen. status res = pass))"
proof -
  let ?xs = "filter flt tests"
  let ?D = "deliveries now ?xs s"
  let ?run = "run now (returning_filter flt) (returning_observer observer) tests s ob"
  have eq: "?run = run_loop now (returning_filter (\<lambda>ti. True)) (returning_observer observer) ?xs 0 0 s ob"
    unfolding run_def by (rule run_loop_filter)
  have a: "?run = run_all now (returning_observer observer) ?xs s ob"
    by (simp add: run_all_def run_def run_loop_filter [of now flt])
  have b: "?xs = [] \<longrightarrow> ?run = (Inr pass, s, ob)"
    by (simp add: eq)
  have c: "(\<forall>ti\<in>set ?xs. \<forall>s0. \<exists>st. fst (run_one now ti Result_init s0) = Inr st) \<longrightarrow>
        (\<exists>st. fst ?run = Inr st)"
    by (simp only: eq run_loop_returns) (blast intro: deliveries_contained)
  have d: "(st = pass \<or> st = fail) \<and> length ?D = length ?xs
           \<and> (st = pass) = (\<forall>res\<in>set ?D. status res = pass)"
    if small: "length ?xs < 2 ^ 64" and ret: "fst ?run = Inr st" for st
  proof -
    let ?k = "length (filter (\<lambda>res. status res = pass) ?D)"
    from ret have ret': "fst (run_loop now (returning_filter (\<lambda>ti. True)) (returning_observer observer)
                               ?xs 0 0 s ob) = Inr st"
      by (simp add: eq)
    then have len: "length ?D = length ?xs"
      using run_loop_returns [of now observer ?xs 0 0 s ob] by blast
    have st: "st = (if (of_nat ?k :: size_t) = of_nat (length ?xs) then pass else fail)"
      using run_loop_status [OF ret'] by simp
    have "?k \<le> length ?D" by (rule length_filter_le)
    with len have "?k \<le> length ?xs" by simp
    then have w: "((of_nat ?k :: size_t) = of_nat (length ?xs)) = (?k = length ?xs)"
      using small by (rule size_t_count_eq)
    have two: "st = pass \<or> st = fail" using st by (simp split: if_splits)
    have "(st = pass) = ((of_nat ?k :: size_t) = of_nat (length ?xs))"
      using st by (simp split: if_splits)
    also have "\<dots> = (?k = length ?D)" by (simp only: w len)
    also have "\<dots> = (\<forall>res\<in>set ?D. status res = pass)" by (rule filter_length_eq)
    finally show ?thesis using two len by blast
  qed
  have e: "\<forall>st s' ob' acc seen.
         run now (logging_filter any_filter) (logging_observer any_observer) tests s (any_ob, [], [])
           = (Inr st, s', (ob', acc, seen))
         \<and> length acc < 2 ^ 64 \<longrightarrow>
           length seen = length acc \<and> (st = pass \<or> st = fail)
           \<and> (st = pass) = (\<forall>res\<in>set seen. status res = pass)"
    by (intro allI impI, elim conjE) (rule run_logged_status)
  from d have d': "length ?xs < 2 ^ 64 \<longrightarrow>
        (\<forall>st. fst ?run = Inr st \<longrightarrow>
           (st = pass \<or> st = fail) \<and> length ?D = length ?xs
           \<and> (st = pass) = (\<forall>res\<in>set ?D. status res = pass))"
    by blast
  show ?thesis by (intro conjI a b c d' e)
qed

text \<open>
  The range of five descriptors with the filter \<open>fast\<close>: the two accepted tests pass and the
  run returns \<open>pass\<close>, although a rejected test fails and another throws \<open>42\<close>.
\<close>

theorem run_aggregate_witness:
  "fst (run clock (returning_filter fast) (returning_observer recording) suite 0 []) = Inr pass
   \<and> length (filter fast suite) < 2 ^ 64
   \<and> (\<forall>s0. fst (run_one clock (descriptor passing_test ''t1'' ''fast'') Result_init s0) = Inr pass)
   \<and> (\<forall>s0. fst (run_one clock (descriptor passing_test ''t3'' ''fast'') Result_init s0) = Inr pass)
   \<and> map status (deliveries clock (filter fast suite) 0) = [pass, pass]
   \<and> run_all clock (returning_observer recording) (filter fast suite) 0 []
       = run clock (returning_filter fast) (returning_observer recording) suite 0 []"
proof -
  have h1: "fst (run clock (returning_filter fast) (returning_observer recording) suite 0 []) = Inr pass"
    by (simp add: suite_run)
  have h2: "length (filter fast suite) < 2 ^ 64"
    by (simp add: suite_fast)
  have h3: "map status (deliveries clock (filter fast suite) 0) = [pass, pass]"
    by (simp add: suite_deliveries Result_init_def)
  have h4: "fst (run_one clock (descriptor passing_test nm ''fast'') Result_init s0) = Inr pass"
    for nm s0
    by (simp add: run_defs ex_defs passing_test_def)
  note th = run_aggregate [of clock fast recording suite 0 "[]"]
  have h5: "run_all clock (returning_observer recording) (filter fast suite) 0 []
       = run clock (returning_filter fast) (returning_observer recording) suite 0 []"
    by (rule th [THEN conjunct1, symmetric])
  from h1 h2 h3 h4 h5 show ?thesis by blast
qed

text \<open>
  The statement above is about the runs that return: when the body of an accepted test is
  \<open>throw 42;\<close> the exception leaves \<open>Runner::run\<close>, and there is no aggregate status.
\<close>

lemma run_without_status:
  "execute_test alien_test 1000 = (Some other_exception, 2000)
   \<and> fst (run clock (returning_filter (\<lambda>ti. True)) (returning_observer recording)
            [descriptor alien_test ''t4'' ''slow''] 0 [])
       = Inl other_exception"
  by (simp add: run_defs ex_defs alien_test_def)




end
